theory Spec2Isabelle
  imports Main "HOL-Library.Word"
begin

section \<open>JavaScript strings\<close>

text \<open>
  A JavaScript string is a sequence of UTF-16 code units: \<open>length\<close> counts code units,
  \<open>===\<close> compares the sequences, \<open>indexOf\<close> searches for a code unit sequence.
  \<open>utf16\<close> writes an ASCII literal of the source as its code units.
\<close>

type_synonym code_unit = "16 word"
type_synonym jsstring = "code_unit list"

definition utf16 :: "string \<Rightarrow> jsstring" where
  "utf16 s = map of_char s"

text \<open>
  \<open>String.prototype.trim\<close> removes leading and trailing WhiteSpace and LineTerminator
  code points (ECMAScript): TAB, VT, FF, SP, NBSP, ZWNBSP, the Unicode space separators,
  and LF, CR, LS, PS. All of them are single code units.
\<close>

definition isWhiteSpace :: "code_unit \<Rightarrow> bool" where
  "isWhiteSpace c =
     (c \<in> {0x0009, 0x000A, 0x000B, 0x000C, 0x000D, 0x0020, 0x00A0, 0x1680,
            0x2028, 0x2029, 0x202F, 0x205F, 0x3000, 0xFEFF}
      \<or> (0x2000 \<le> c \<and> c \<le> 0x200A))"

definition trim :: "jsstring \<Rightarrow> jsstring" where
  "trim s = rev (dropWhile isWhiteSpace (rev (dropWhile isWhiteSpace s)))"

text \<open>\<open>s.indexOf(c)\<close> for a one-unit needle: the first position of \<open>c\<close>, or \<open>-1\<close>.\<close>

fun indexOf :: "jsstring \<Rightarrow> code_unit \<Rightarrow> int" where
  "indexOf [] c = -1"
| "indexOf (x # xs) c =
     (if x = c then 0
      else (let i = indexOf xs c in if i = -1 then -1 else i + 1))"

definition at_sign :: code_unit where
  "at_sign = 0x40"

section \<open>utils/validation\<close>

text \<open>
  The parameters are typed \<open>string\<close>, so the \<open>typeof\<close> test of each guard never fires;
  \<open>!s\<close> is true exactly for the empty string.
\<close>

definition validateEmail :: "jsstring \<Rightarrow> bool" where
  "validateEmail email =
     (if email = [] then False
      else (let atIndex = indexOf email at_sign in
        if atIndex = -1 then False
        else if atIndex = 0 then False
        else if atIndex = int (length email) - 1 then False
        else True))"

definition validatePassword :: "jsstring \<Rightarrow> bool" where
  "validatePassword password =
     (if password = [] then False else length password \<ge> 6)"

definition validateRequired :: "jsstring \<Rightarrow> bool" where
  "validateRequired v =
     (if v = [] then False else length (trim v) > 0)"

section \<open>types/auth\<close>

record User =
  name :: jsstring
  email :: jsstring
  password :: jsstring

text \<open>The three pieces of React state held by \<open>AuthProvider\<close>.\<close>

record AuthState =
  user :: "User option"
  users :: "User list"
  isLoading :: bool

text \<open>The \<open>useState\<close> defaults.\<close>

definition initialState :: AuthState where
  "initialState = \<lparr>user = None, users = [], isLoading = True\<rparr>"

text \<open>
  The errors thrown by \<open>signup\<close>, \<open>login\<close> and \<open>logout\<close>, one constructor per
  \<open>new Error(...)\<close> of the source; \<open>message\<close> is the text it carries.
\<close>

datatype error =
    NameRequired
  | EmailRequired
  | PasswordRequired
  | InvalidEmailFormat
  | PasswordTooShort
  | EmailAlreadyRegistered
  | InvalidCredentials
  | FailedToSaveUserData
  | FailedToSaveSession
  | FailedToClearSession

fun message :: "error \<Rightarrow> string" where
  "message NameRequired = ''Name is required''"
| "message EmailRequired = ''Email is required''"
| "message PasswordRequired = ''Password is required''"
| "message InvalidEmailFormat = ''Invalid email format''"
| "message PasswordTooShort = ''Password must be at least 6 characters''"
| "message EmailAlreadyRegistered = ''Email already registered''"
| "message InvalidCredentials = ''Invalid credentials''"
| "message FailedToSaveUserData = ''Failed to save user data''"
| "message FailedToSaveSession = ''Failed to save session''"
| "message FailedToClearSession = ''Failed to clear session''"

text \<open>The specification's names for groups of these errors.\<close>

definition ValidationError :: "error set" where
  "ValidationError = {NameRequired, EmailRequired, PasswordRequired,
                      InvalidEmailFormat, PasswordTooShort, EmailAlreadyRegistered}"

definition PersistenceFailure :: "error set" where
  "PersistenceFailure = {FailedToSaveUserData, FailedToSaveSession, FailedToClearSession}"

section \<open>The platform: AsyncStorage and JSON\<close>

text \<open>
  AsyncStorage and \<open>JSON\<close> are not code of the repository. Their behaviour at the moment
  of a call is a parameter of every operation: a promise that rejects, or a \<open>JSON.parse\<close>
  that throws, is \<open>Inl\<close>; \<open>getItem\<close> resolving to \<open>null\<close> is \<open>Inr None\<close>. \<open>JSON.parse\<close>
  is taken at the type the storage service declares for its result (\<open>User | null\<close>,
  \<open>User[]\<close>).
\<close>

datatype js_exn = JsError string

record Platform =
  getItem :: "jsstring \<Rightarrow> js_exn + jsstring option"
  setItem :: "jsstring \<Rightarrow> jsstring \<Rightarrow> js_exn + unit"
  removeItem :: "jsstring \<Rightarrow> js_exn + unit"
  stringifyUser :: "User \<Rightarrow> jsstring"
  stringifyUsers :: "User list \<Rightarrow> jsstring"
  parseUser :: "jsstring \<Rightarrow> js_exn + User option"
  parseUsers :: "jsstring \<Rightarrow> js_exn + User list"

section \<open>services/storage\<close>

definition USER_KEY :: jsstring where
  "USER_KEY = utf16 ''@auth_user''"

definition USERS_KEY :: jsstring where
  "USERS_KEY = utf16 ''@auth_users''"

text \<open>The writers log and rethrow; the readers log and return \<open>null\<close> or \<open>[]\<close>.\<close>

definition saveUser :: "Platform \<Rightarrow> User \<Rightarrow> js_exn + unit" where
  "saveUser p u =
     (let jsonValue = stringifyUser p u in
      case setItem p USER_KEY jsonValue of
        Inl e \<Rightarrow> Inl e
      | Inr _ \<Rightarrow> Inr ())"

definition getUser :: "Platform \<Rightarrow> js_exn + User option" where
  "getUser p =
     (case getItem p USER_KEY of
        Inl e \<Rightarrow> Inr None
      | Inr None \<Rightarrow> Inr None
      | Inr (Some jsonValue) \<Rightarrow>
          (case parseUser p jsonValue of
             Inl e \<Rightarrow> Inr None
           | Inr v \<Rightarrow> Inr v))"

definition removeUser :: "Platform \<Rightarrow> js_exn + unit" where
  "removeUser p =
     (case removeItem p USER_KEY of
        Inl e \<Rightarrow> Inl e
      | Inr _ \<Rightarrow> Inr ())"

definition saveUsers :: "Platform \<Rightarrow> User list \<Rightarrow> js_exn + unit" where
  "saveUsers p us =
     (let jsonValue = stringifyUsers p us in
      case setItem p USERS_KEY jsonValue of
        Inl e \<Rightarrow> Inl e
      | Inr _ \<Rightarrow> Inr ())"

definition getUsers :: "Platform \<Rightarrow> js_exn + User list" where
  "getUsers p =
     (case getItem p USERS_KEY of
        Inl e \<Rightarrow> Inr []
      | Inr None \<Rightarrow> Inr []
      | Inr (Some jsonValue) \<Rightarrow>
          (case parseUsers p jsonValue of
             Inl e \<Rightarrow> Inr []
           | Inr v \<Rightarrow> Inr v))"

section \<open>contexts/AuthContext\<close>

text \<open>
  Every render of \<open>AuthProvider\<close> creates a context value: closures \<open>signup\<close>, \<open>login\<close>
  and \<open>logout\<close> that read the \<open>users\<close> of that render, while \<open>setUser\<close> and \<open>setUsers\<close>
  overwrite React's current state. \<open>signup\<close>, \<open>login\<close> and \<open>logout\<close> below are a call
  through the context value of the current render: they take the platform and that
  render's state and return what the call throws or returns, together with the state after
  its \<open>setState\<close> calls. \<open>signupFrom\<close> and \<open>loginFrom\<close> further down are the same
  closures called through the context value of any render.
\<close>

text \<open>
  \<open>loadStoredAuth\<close>: both reads are awaited before any state is set; an exception in the
  \<open>try\<close> block is logged by the \<open>catch\<close>, and \<open>finally\<close> clears the loading flag.
\<close>

definition loadStoredAuth :: "Platform \<Rightarrow> AuthState \<Rightarrow> (js_exn + unit) \<times> AuthState" where
  "loadStoredAuth p s =
     (let s0 = s\<lparr>isLoading := True\<rparr>;
          (r, s1) =
            (case getUser p of
               Inl e \<Rightarrow> (Inl e, s0)
             | Inr storedUser \<Rightarrow>
                 (case getUsers p of
                    Inl e \<Rightarrow> (Inl e, s0)
                  | Inr storedUsers \<Rightarrow>
                      (let s' = (case storedUser of
                                   Some u \<Rightarrow> s0\<lparr>user := Some u\<rparr>
                                 | None \<Rightarrow> s0)
                       in (Inr (), s'\<lparr>users := storedUsers\<rparr>))));
          caught = (case r of Inl e \<Rightarrow> Inr () | Inr _ \<Rightarrow> Inr ())
      in (caught, s1\<lparr>isLoading := False\<rparr>))"

definition signup ::
  "Platform \<Rightarrow> AuthState \<Rightarrow> jsstring \<Rightarrow> jsstring \<Rightarrow> jsstring \<Rightarrow> (error + unit) \<times> AuthState" where
  "signup p s nm em pw =
     (if \<not> validateRequired nm then (Inl NameRequired, s)
      else if \<not> validateRequired em then (Inl EmailRequired, s)
      else if \<not> validateRequired pw then (Inl PasswordRequired, s)
      else if \<not> validateEmail em then (Inl InvalidEmailFormat, s)
      else if \<not> validatePassword pw then (Inl PasswordTooShort, s)
      else
        (case find (\<lambda>u. email u = em) (users s) of
           Some existingUser \<Rightarrow> (Inl EmailAlreadyRegistered, s)
         | None \<Rightarrow>
             (let newUser = \<lparr>name = nm, email = em, password = pw\<rparr>;
                  updatedUsers = users s @ [newUser];
                  s' = s\<lparr>users := updatedUsers\<rparr>
              in case saveUsers p updatedUsers of
                   Inl e \<Rightarrow> (Inl FailedToSaveUserData, s')
                 | Inr _ \<Rightarrow> (Inr (), s'))))"

definition login ::
  "Platform \<Rightarrow> AuthState \<Rightarrow> jsstring \<Rightarrow> jsstring \<Rightarrow> (error + unit) \<times> AuthState" where
  "login p s em pw =
     (if \<not> validateRequired em then (Inl EmailRequired, s)
      else if \<not> validateRequired pw then (Inl PasswordRequired, s)
      else if \<not> validateEmail em then (Inl InvalidEmailFormat, s)
      else
        (case find (\<lambda>u. email u = em) (users s) of
           None \<Rightarrow> (Inl InvalidCredentials, s)
         | Some foundUser \<Rightarrow>
             (if password foundUser \<noteq> pw then (Inl InvalidCredentials, s)
              else
                (let s' = s\<lparr>user := Some foundUser\<rparr>
                 in case saveUser p foundUser of
                      Inl e \<Rightarrow> (Inl FailedToSaveSession, s')
                    | Inr _ \<Rightarrow> (Inr (), s')))))"

definition logout :: "Platform \<Rightarrow> AuthState \<Rightarrow> (error + unit) \<times> AuthState" where
  "logout p s =
     (let s' = s\<lparr>user := None\<rparr>
      in case removeUser p of
           Inl e \<Rightarrow> (Inl FailedToClearSession, s')
         | Inr _ \<Rightarrow> (Inr (), s'))"

text \<open>
  A caller that keeps a context value calls the closures of the render \<open>r\<close> that created
  it, whatever React's state \<open>s\<close> has become since: the duplicate check and the lookup
  read \<open>users r\<close>, \<open>setUsers\<close> stores \<open>users r\<close> with the new user appended, and
  \<open>setUser\<close> stores the user found in \<open>users r\<close>. \<open>logout\<close> reads nothing of its render.
\<close>

definition signupFrom ::
  "Platform \<Rightarrow> AuthState \<Rightarrow> AuthState \<Rightarrow> jsstring \<Rightarrow> jsstring \<Rightarrow> jsstring
     \<Rightarrow> (error + unit) \<times> AuthState" where
  "signupFrom p r s nm em pw =
     (if \<not> validateRequired nm then (Inl NameRequired, s)
      else if \<not> validateRequired em then (Inl EmailRequired, s)
      else if \<not> validateRequired pw then (Inl PasswordRequired, s)
      else if \<not> validateEmail em then (Inl InvalidEmailFormat, s)
      else if \<not> validatePassword pw then (Inl PasswordTooShort, s)
      else
        (case find (\<lambda>u. email u = em) (users r) of
           Some existingUser \<Rightarrow> (Inl EmailAlreadyRegistered, s)
         | None \<Rightarrow>
             (let newUser = \<lparr>name = nm, email = em, password = pw\<rparr>;
                  updatedUsers = users r @ [newUser];
                  s' = s\<lparr>users := updatedUsers\<rparr>
              in case saveUsers p updatedUsers of
                   Inl e \<Rightarrow> (Inl FailedToSaveUserData, s')
                 | Inr _ \<Rightarrow> (Inr (), s'))))"

definition loginFrom ::
  "Platform \<Rightarrow> AuthState \<Rightarrow> AuthState \<Rightarrow> jsstring \<Rightarrow> jsstring
     \<Rightarrow> (error + unit) \<times> AuthState" where
  "loginFrom p r s em pw =
     (if \<not> validateRequired em then (Inl EmailRequired, s)
      else if \<not> validateRequired pw then (Inl PasswordRequired, s)
      else if \<not> validateEmail em then (Inl InvalidEmailFormat, s)
      else
        (case find (\<lambda>u. email u = em) (users r) of
           None \<Rightarrow> (Inl InvalidCredentials, s)
         | Some foundUser \<Rightarrow>
             (if password foundUser \<noteq> pw then (Inl InvalidCredentials, s)
              else
                (let s' = s\<lparr>user := Some foundUser\<rparr>
                 in case saveUser p foundUser of
                      Inl e \<Rightarrow> (Inl FailedToSaveSession, s')
                    | Inr _ \<Rightarrow> (Inr (), s')))))"

section \<open>Sequences of operations\<close>

text \<open>
  The three operations the context exposes. \<open>step\<close> is a call through the context value
  of the current render, \<open>stepFrom\<close> a call through the context value of the render \<open>r\<close>.
\<close>

datatype call =
    Signup jsstring jsstring jsstring
  | Login jsstring jsstring
  | Logout

fun step :: "Platform \<Rightarrow> AuthState \<Rightarrow> call \<Rightarrow> (error + unit) \<times> AuthState" where
  "step p s (Signup nm em pw) = signup p s nm em pw"
| "step p s (Login em pw) = login p s em pw"
| "step p s Logout = logout p s"

fun isSignup :: "call \<Rightarrow> bool" where
  "isSignup (Signup nm em pw) = True"
| "isSignup c = False"

fun stepFrom :: "Platform \<Rightarrow> AuthState \<Rightarrow> AuthState \<Rightarrow> call \<Rightarrow> (error + unit) \<times> AuthState" where
  "stepFrom p r s (Signup nm em pw) = signupFrom p r s nm em pw"
| "stepFrom p r s (Login em pw) = loginFrom p r s em pw"
| "stepFrom p r s Logout = logout p s"

text \<open>
  A run of calls. \<open>s\<close> is React's current state and \<open>olds\<close> the states of the earlier
  renders, newest first. Every call comes with the platform's behaviour at that moment and
  with the age of the context value it is made through: \<open>0\<close> is the current render,
  \<open>1\<close> the one before, and an age beyond the first render means the first. The call
  reads that render and writes the current state, which then becomes the newest render.
  \<open>run\<close> returns the outcome of every call and the final state.
\<close>

fun run ::
  "AuthState \<Rightarrow> AuthState list \<Rightarrow> (Platform \<times> nat \<times> call) list
     \<Rightarrow> (error + unit) list \<times> AuthState" where
  "run s olds [] = ([], s)"
| "run s olds ((p, i, c) # cs) =
     (let r = (s # olds) ! min i (length olds);
          (res, s') = stepFrom p r s c;
          (rs, s'') = run s' (s # olds) cs
      in (res # rs, s''))"

text \<open>A signup made through the context value of the current render.\<close>

fun isFreshSignup :: "Platform \<times> nat \<times> call \<Rightarrow> bool" where
  "isFreshSignup (p, i, c) = (i = 0 \<and> isSignup c)"

text \<open>Two platforms for concrete runs: one where every call resolves, one where every
  call rejects. Both serialise to the empty text, which nothing reads back.\<close>

definition okPlatform :: Platform where
  "okPlatform =
     \<lparr>getItem = (\<lambda>k. Inr None),
      setItem = (\<lambda>k v. Inr ()),
      removeItem = (\<lambda>k. Inr ()),
      stringifyUser = (\<lambda>u. []),
      stringifyUsers = (\<lambda>us. []),
      parseUser = (\<lambda>t. Inr None),
      parseUsers = (\<lambda>t. Inr [])\<rparr>"

definition failingPlatform :: Platform where
  "failingPlatform =
     \<lparr>getItem = (\<lambda>k. Inl (JsError ''storage'')),
      setItem = (\<lambda>k v. Inl (JsError ''storage'')),
      removeItem = (\<lambda>k. Inl (JsError ''storage'')),
      stringifyUser = (\<lambda>u. []),
      stringifyUsers = (\<lambda>us. []),
      parseUser = (\<lambda>t. Inl (JsError ''syntax'')),
      parseUsers = (\<lambda>t. Inl (JsError ''syntax''))\<rparr>"


text \<open>The user of the specification's scenario, and a second one.\<close>

definition ann :: User where
  "ann = \<lparr>name = utf16 ''Ann'', email = utf16 ''ann@x.com'', password = utf16 ''secret1''\<rparr>"

definition bob :: User where
  "bob = \<lparr>name = utf16 ''Bob'', email = utf16 ''bob@x.com'', password = utf16 ''hunter22''\<rparr>"

section \<open>The specification's order of checks\<close>

text \<open>
  The six checks of \<open>signup\<close> as the specification lists them, each paired with the
  error it reports: the first component says whether the check passes. \<open>first_failure\<close>
  is the error of the first check that does not pass, if there is one.
\<close>

definition signup_checks ::
  "AuthState \<Rightarrow> jsstring \<Rightarrow> jsstring \<Rightarrow> jsstring \<Rightarrow> (bool \<times> error) list" where
  "signup_checks s nm em pw =
     [(validateRequired nm, NameRequired),
      (validateRequired em, EmailRequired),
      (validateRequired pw, PasswordRequired),
      (validateEmail em, InvalidEmailFormat),
      (validatePassword pw, PasswordTooShort),
      (em \<notin> email ` set (users s), EmailAlreadyRegistered)]"

definition first_failure :: "(bool \<times> error) list \<Rightarrow> error option" where
  "first_failure cs = map_option snd (find (\<lambda>c. \<not> fst c) cs)"

text \<open>
  A read at start-up that yields nothing: \<open>getItem\<close> rejects, resolves to \<open>null\<close>, or
  resolves to a text on which \<open>JSON.parse\<close> throws.
\<close>

definition sessionUnreadable :: "Platform \<Rightarrow> bool" where
  "sessionUnreadable p =
     (case getItem p USER_KEY of
        Inl e \<Rightarrow> True
      | Inr None \<Rightarrow> True
      | Inr (Some t) \<Rightarrow> (case parseUser p t of Inl e \<Rightarrow> True | Inr v \<Rightarrow> False))"

definition registryUnreadable :: "Platform \<Rightarrow> bool" where
  "registryUnreadable p =
     (case getItem p USERS_KEY of
        Inl e \<Rightarrow> True
      | Inr None \<Rightarrow> True
      | Inr (Some t) \<Rightarrow> (case parseUsers p t of Inl e \<Rightarrow> True | Inr v \<Rightarrow> False))"

section \<open>Auxiliary facts\<close>

subsection \<open>\<open>indexOf\<close> and \<open>find\<close>\<close>

lemma indexOf_ge: "indexOf s c \<ge> -1"
  by (induction s) (auto simp: Let_def)

lemma indexOf_neg_iff: "indexOf s c = -1 \<longleftrightarrow> c \<notin> set s"
proof (induction s)
  case Nil
  show ?case by simp
next
  case (Cons x xs)
  have "indexOf xs c \<ge> -1" by (rule indexOf_ge)
  then have "indexOf xs c \<noteq> -1 \<Longrightarrow> indexOf xs c + 1 \<noteq> -1" by arith
  with Cons show ?case by (auto simp: Let_def)
qed

lemma indexOf_zero_iff: "indexOf s c = 0 \<longleftrightarrow> s \<noteq> [] \<and> hd s = c"
proof (cases s)
  case Nil
  then show ?thesis by simp
next
  case (Cons x xs)
  have "indexOf xs c \<ge> -1" by (rule indexOf_ge)
  then have "indexOf xs c \<noteq> -1 \<Longrightarrow> indexOf xs c + 1 \<noteq> 0" by arith
  with Cons show ?thesis by (auto simp: Let_def)
qed

lemma indexOf_snoc: "c \<notin> set xs \<Longrightarrow> indexOf (xs @ [c]) c = int (length xs)"
  by (induction xs) (auto simp: Let_def)

lemma find_email_None: "find (\<lambda>u. email u = em) us = None \<longleftrightarrow> em \<notin> email ` set us"
  by (auto simp: find_None_iff)

lemma find_email_Some: "find (\<lambda>u. email u = em) us = Some u \<Longrightarrow> u \<in> set us \<and> email u = em"
  by (auto simp: find_Some_iff)

lemma find_email_snoc:
  "em \<notin> email ` set us \<Longrightarrow> email u = em \<Longrightarrow> find (\<lambda>u. email u = em) (us @ [u]) = Some u"
  by (induction us) auto

subsection \<open>The operations as case distinctions\<close>

lemma signup_cases:
  "signup p s nm em pw =
     (if \<not> validateRequired nm then (Inl NameRequired, s)
      else if \<not> validateRequired em then (Inl EmailRequired, s)
      else if \<not> validateRequired pw then (Inl PasswordRequired, s)
      else if \<not> validateEmail em then (Inl InvalidEmailFormat, s)
      else if \<not> validatePassword pw then (Inl PasswordTooShort, s)
      else if em \<in> email ` set (users s) then (Inl EmailAlreadyRegistered, s)
      else (case saveUsers p (users s @ [\<lparr>name = nm, email = em, password = pw\<rparr>]) of
              Inl e \<Rightarrow> Inl FailedToSaveUserData
            | Inr _ \<Rightarrow> Inr (),
            s\<lparr>users := users s @ [\<lparr>name = nm, email = em, password = pw\<rparr>]\<rparr>))"
proof (cases "find (\<lambda>u. email u = em) (users s)")
  case None
  then have "em \<notin> email ` set (users s)" by (simp add: find_email_None)
  with None show ?thesis
    by (simp add: signup_def Let_def split: sum.splits)
next
  case (Some u)
  then have "em \<in> email ` set (users s)"
    using find_email_None [of em "users s"] by simp
  with Some show ?thesis
    by (simp add: signup_def)
qed

lemma login_cases:
  "login p s em pw =
     (if \<not> validateRequired em then (Inl EmailRequired, s)
      else if \<not> validateRequired pw then (Inl PasswordRequired, s)
      else if \<not> validateEmail em then (Inl InvalidEmailFormat, s)
      else (case find (\<lambda>u. email u = em) (users s) of
              None \<Rightarrow> (Inl InvalidCredentials, s)
            | Some f \<Rightarrow>
                if password f \<noteq> pw then (Inl InvalidCredentials, s)
                else (case saveUser p f of
                        Inl e \<Rightarrow> Inl FailedToSaveSession
                      | Inr _ \<Rightarrow> Inr (),
                      s\<lparr>user := Some f\<rparr>)))"
  by (simp add: login_def Let_def split: option.splits sum.splits)

lemma logout_cases:
  "logout p s =
     (case removeUser p of Inl e \<Rightarrow> Inl FailedToClearSession | Inr _ \<Rightarrow> Inr (),
      s\<lparr>user := None\<rparr>)"
  by (simp add: logout_def Let_def split: sum.splits)

lemma signup_user: "user (snd (signup p s nm em pw)) = user s"
  by (simp add: signup_cases)

lemma signup_ok_users:
  "fst (signup p s nm em pw) = Inr () \<Longrightarrow>
     users (snd (signup p s nm em pw)) = users s @ [\<lparr>name = nm, email = em, password = pw\<rparr>]"
  by (simp add: signup_cases split: if_splits)

lemma login_users: "users (snd (login p s em pw)) = users s"
  by (simp add: login_cases split: option.splits)

lemma logout_users: "users (snd (logout p s)) = users s"
  by (simp add: logout_cases)

subsection \<open>The scenario's inputs and platforms\<close>

lemma ann_valid:
  "validateRequired (name ann)" "validateRequired (email ann)" "validateRequired (password ann)"
  "validateEmail (email ann)" "validatePassword (password ann)"
  by (simp_all add: ann_def validateRequired_def validateEmail_def validatePassword_def
        trim_def isWhiteSpace_def at_sign_def utf16_def)

lemma bob_valid:
  "validateRequired (name bob)" "validateRequired (email bob)" "validateRequired (password bob)"
  "validateEmail (email bob)" "validatePassword (password bob)"
  by (simp_all add: bob_def validateRequired_def validateEmail_def validatePassword_def
        trim_def isWhiteSpace_def at_sign_def utf16_def)

lemma ann_bob_email: "email ann \<noteq> email bob"
  by (simp add: ann_def bob_def utf16_def)

lemma okPlatform_writes:
  "saveUsers okPlatform us = Inr ()" "saveUser okPlatform u = Inr ()" "removeUser okPlatform = Inr ()"
  by (simp_all add: saveUsers_def saveUser_def removeUser_def okPlatform_def)

lemma failingPlatform_writes:
  "saveUsers failingPlatform us = Inl (JsError ''storage'')"
  "saveUser failingPlatform u = Inl (JsError ''storage'')"
  "removeUser failingPlatform = Inl (JsError ''storage'')"
  by (simp_all add: saveUsers_def saveUser_def removeUser_def failingPlatform_def)

lemma signup_ann:
  "signup okPlatform initialState (name ann) (email ann) (password ann)
     = (Inr (), initialState\<lparr>users := [ann]\<rparr>)"
  by (simp add: signup_cases ann_valid okPlatform_writes) (simp add: initialState_def ann_def)

subsection \<open>Calls through the context value of another render\<close>

lemma signupFrom_same: "signupFrom p s s nm em pw = signup p s nm em pw"
  by (simp add: signupFrom_def signup_def)

lemma loginFrom_same: "loginFrom p s s em pw = login p s em pw"
  by (simp add: loginFrom_def login_def)

lemma stepFrom_same: "stepFrom p s s c = step p s c"
  by (cases c) (simp_all add: signupFrom_same loginFrom_same)

lemma signupFrom_cases:
  "signupFrom p r s nm em pw =
     (if \<not> validateRequired nm then (Inl NameRequired, s)
      else if \<not> validateRequired em then (Inl EmailRequired, s)
      else if \<not> validateRequired pw then (Inl PasswordRequired, s)
      else if \<not> validateEmail em then (Inl InvalidEmailFormat, s)
      else if \<not> validatePassword pw then (Inl PasswordTooShort, s)
      else if em \<in> email ` set (users r) then (Inl EmailAlreadyRegistered, s)
      else (case saveUsers p (users r @ [\<lparr>name = nm, email = em, password = pw\<rparr>]) of
              Inl e \<Rightarrow> Inl FailedToSaveUserData
            | Inr _ \<Rightarrow> Inr (),
            s\<lparr>users := users r @ [\<lparr>name = nm, email = em, password = pw\<rparr>]\<rparr>))"
proof (cases "find (\<lambda>u. email u = em) (users r)")
  case None
  then have "em \<notin> email ` set (users r)" by (simp add: find_email_None)
  with None show ?thesis
    by (simp add: signupFrom_def Let_def split: sum.splits)
next
  case (Some u)
  then have "em \<in> email ` set (users r)"
    using find_email_None [of em "users r"] by simp
  with Some show ?thesis
    by (simp add: signupFrom_def)
qed

lemma loginFrom_cases:
  "loginFrom p r s em pw =
     (if \<not> validateRequired em then (Inl EmailRequired, s)
      else if \<not> validateRequired pw then (Inl PasswordRequired, s)
      else if \<not> validateEmail em then (Inl InvalidEmailFormat, s)
      else (case find (\<lambda>u. email u = em) (users r) of
              None \<Rightarrow> (Inl InvalidCredentials, s)
            | Some f \<Rightarrow>
                if password f \<noteq> pw then (Inl InvalidCredentials, s)
                else (case saveUser p f of
                        Inl e \<Rightarrow> Inl FailedToSaveSession
                      | Inr _ \<Rightarrow> Inr (),
                      s\<lparr>user := Some f\<rparr>)))"
  by (simp add: loginFrom_def Let_def split: option.splits sum.splits)

lemma signupFrom_distinct:
  "distinct (map email (users r)) \<Longrightarrow> distinct (map email (users s)) \<Longrightarrow>
     distinct (map email (users (snd (signupFrom p r s nm em pw))))"
  by (simp add: signupFrom_cases)

lemma loginFrom_users: "users (snd (loginFrom p r s em pw)) = users s"
  by (simp add: loginFrom_cases split: option.splits)

lemma stepFrom_distinct:
  "distinct (map email (users r)) \<Longrightarrow> distinct (map email (users s)) \<Longrightarrow>
     distinct (map email (users (snd (stepFrom p r s c))))"
  by (cases c) (simp_all add: signupFrom_distinct loginFrom_users logout_users)

subsection \<open>Runs\<close>

lemma run_Cons:
  "fst (run s olds ((p, i, c) # cs)) =
     fst (stepFrom p ((s # olds) ! min i (length olds)) s c)
       # fst (run (snd (stepFrom p ((s # olds) ! min i (length olds)) s c)) (s # olds) cs)"
  "snd (run s olds ((p, i, c) # cs)) =
     snd (run (snd (stepFrom p ((s # olds) ! min i (length olds)) s c)) (s # olds) cs)"
  by (simp_all add: split_beta Let_def)

lemma run_distinct:
  "distinct (map email (users s)) \<Longrightarrow> \<forall>r \<in> set olds. distinct (map email (users r)) \<Longrightarrow>
     distinct (map email (users (snd (run s olds cs))))"
proof (induction cs arbitrary: s olds)
  case Nil
  then show ?case by simp
next
  case (Cons pic cs)
  obtain p i c where pic: "pic = (p, i, c)" by (cases pic)
  let ?r = "(s # olds) ! min i (length olds)"
  have "?r \<in> set (s # olds)"
    by (rule nth_mem) simp
  with Cons.prems have r: "distinct (map email (users ?r))"
    by auto
  have s': "distinct (map email (users (snd (stepFrom p ?r s c))))"
    using r Cons.prems(1) by (rule stepFrom_distinct)
  have olds': "\<forall>x \<in> set (s # olds). distinct (map email (users x))"
    using Cons.prems by simp
  have "distinct (map email (users (snd (run (snd (stepFrom p ?r s c)) (s # olds) cs))))"
    using s' olds' by (rule Cons.IH)
  then show ?case
    by (simp only: pic run_Cons)
qed

lemma run_fresh_signups_length:
  "list_all isFreshSignup cs \<Longrightarrow> list_all (\<lambda>res. res = Inr ()) (fst (run s olds cs)) \<Longrightarrow>
     length (users (snd (run s olds cs))) = length (users s) + length cs"
proof (induction cs arbitrary: s olds)
  case Nil
  then show ?case by simp
next
  case (Cons pic cs)
  obtain p i c where pic: "pic = (p, i, c)" by (cases pic)
  from Cons.prems(1) pic have i: "i = 0" and "isSignup c"
    by simp_all
  then obtain nm em pw where c: "c = Signup nm em pw"
    by (cases c) simp_all
  let ?s' = "snd (signup p s nm em pw)"
  from Cons.prems(2) have ok: "fst (signup p s nm em pw) = Inr ()"
    and rest: "list_all (\<lambda>res. res = Inr ()) (fst (run ?s' (s # olds) cs))"
    by (simp_all add: pic i c run_Cons signupFrom_same del: run.simps)
  from Cons.prems(1) have sg: "list_all isFreshSignup cs" by simp
  have "length (users (snd (run ?s' (s # olds) cs))) = length (users ?s') + length cs"
    using sg rest by (rule Cons.IH)
  with signup_ok_users [OF ok] show ?case
    by (simp add: pic i c run_Cons signupFrom_same del: run.simps)
qed

lemma signup_bob:
  "signup okPlatform (initialState\<lparr>users := [ann]\<rparr>) (name bob) (email bob) (password bob)
     = (Inr (), initialState\<lparr>users := [ann, bob]\<rparr>)"
  using ann_bob_email
  by (simp add: signup_cases bob_valid okPlatform_writes)

lemma signupFrom_bob_stale:
  "signupFrom okPlatform initialState (initialState\<lparr>users := [ann]\<rparr>)
       (name bob) (email bob) (password bob)
     = (Inr (), initialState\<lparr>users := [bob]\<rparr>)"
  by (simp add: signupFrom_cases bob_valid okPlatform_writes) (simp add: initialState_def bob_def)

lemma run_ann_bob:
  "run initialState []
     [(okPlatform, 0, Signup (name ann) (email ann) (password ann)),
      (okPlatform, 0, Signup (name bob) (email bob) (password bob))]
   = ([Inr (), Inr ()], initialState\<lparr>users := [ann, bob]\<rparr>)"
  by (simp add: signupFrom_same signup_ann signup_bob)

lemma run_ann_bob_stale:
  "run initialState []
     [(okPlatform, 0, Signup (name ann) (email ann) (password ann)),
      (okPlatform, 1, Signup (name bob) (email bob) (password bob))]
   = ([Inr (), Inr ()], initialState\<lparr>users := [bob]\<rparr>)"
  by (simp add: signupFrom_same signup_ann signupFrom_bob_stale)

subsection \<open>The order of checks, blank input, and the readers\<close>

lemma first_failure_signup_checks:
  "first_failure (signup_checks s nm em pw) =
     (if \<not> validateRequired nm then Some NameRequired
      else if \<not> validateRequired em then Some EmailRequired
      else if \<not> validateRequired pw then Some PasswordRequired
      else if \<not> validateEmail em then Some InvalidEmailFormat
      else if \<not> validatePassword pw then Some PasswordTooShort
      else if em \<in> email ` set (users s) then Some EmailAlreadyRegistered
      else None)"
  by (simp add: first_failure_def signup_checks_def)

lemma blank_required: "\<not> validateRequired []"
  by (simp add: validateRequired_def)

lemma getUser_unreadable: "sessionUnreadable p \<Longrightarrow> getUser p = Inr None"
  by (simp add: sessionUnreadable_def getUser_def split: sum.splits option.splits)

lemma getUsers_unreadable: "registryUnreadable p \<Longrightarrow> getUsers p = Inr []"
  by (simp add: registryUnreadable_def getUsers_def split: sum.splits option.splits)

lemma getUser_total: "\<exists>v. getUser p = Inr v"
  by (simp add: getUser_def split: sum.splits option.splits)

lemma getUsers_total: "\<exists>v. getUsers p = Inr v"
  by (simp add: getUsers_def split: sum.splits option.splits)

lemma loadStoredAuth_cases:
  "getUser p = Inr v \<Longrightarrow> getUsers p = Inr us \<Longrightarrow>
     loadStoredAuth p s =
       (Inr (), \<lparr>user = (case v of Some u \<Rightarrow> Some u | None \<Rightarrow> user s),
                 users = us, isLoading = False\<rparr>)"
  by (cases v) (simp_all add: loadStoredAuth_def Let_def)

section \<open>The claims\<close>

text \<open>
  C1 (round trip), as the code has it. Take a name, an email and a password that pass the
  five validator checks, and a \<open>signup\<close> called through a context value whose registry
  does not contain the email. A \<open>login\<close> with the same email and password, called through
  the context value of the render that follows, leaves \<open>currentUser\<close> equal to the record
  \<open>{name, email, password}\<close>, whatever the storage does. \<open>signup\<close> returns normally when
  its registry write resolves and throws its persistence error when it rejects; \<open>login\<close>
  does the same with its session write.
\<close>

theorem signup_login_round_trip:
  assumes "validateRequired nm" and "validateRequired em" and "validateRequired pw"
    and "validateEmail em" and "validatePassword pw"
    and "em \<notin> email ` set (users r)"
    and "u = \<lparr>name = nm, email = em, password = pw\<rparr>"
  shows "user (snd (login pb (snd (signupFrom pa r s nm em pw)) em pw)) = Some u
         \<and> fst (signupFrom pa r s nm em pw)
             = (case saveUsers pa (users r @ [u]) of
                  Inl x \<Rightarrow> Inl FailedToSaveUserData
                | Inr _ \<Rightarrow> Inr ())
         \<and> fst (login pb (snd (signupFrom pa r s nm em pw)) em pw)
             = (case saveUser pb u of
                  Inl x \<Rightarrow> Inl FailedToSaveSession
                | Inr _ \<Rightarrow> Inr ())"
proof -
  let ?s1 = "s\<lparr>users := users r @ [u]\<rparr>"
  have s1: "snd (signupFrom pa r s nm em pw) = ?s1"
    using assms by (simp add: signupFrom_cases)
  have r1: "fst (signupFrom pa r s nm em pw)
              = (case saveUsers pa (users r @ [u]) of
                   Inl x \<Rightarrow> Inl FailedToSaveUserData
                 | Inr _ \<Rightarrow> Inr ())"
    using assms by (simp add: signupFrom_cases)
  have f: "find (\<lambda>v. email v = em) (users ?s1) = Some u"
    using assms by (simp add: find_email_snoc)
  have l: "login pb ?s1 em pw =
             (case saveUser pb u of Inl e \<Rightarrow> Inl FailedToSaveSession | Inr _ \<Rightarrow> Inr (),
              ?s1\<lparr>user := Some u\<rparr>)"
    using assms(2,3,4,7) f by (simp add: login_cases)
  show ?thesis
    using r1 by (simp add: s1 l)
qed

theorem signup_login_round_trip_witness:
  "validateRequired (name ann) \<and> validateRequired (email ann) \<and> validateRequired (password ann)
   \<and> validateEmail (email ann) \<and> validatePassword (password ann)
   \<and> email ann \<notin> email ` set (users initialState)
   \<and> user (snd (login okPlatform
               (snd (signup okPlatform initialState (name ann) (email ann) (password ann)))
               (email ann) (password ann))) = Some ann
   \<and> fst (signup okPlatform initialState (name ann) (email ann) (password ann)) = Inr ()
   \<and> fst (login okPlatform
            (snd (signup okPlatform initialState (name ann) (email ann) (password ann)))
            (email ann) (password ann)) = Inr ()
   \<and> user (snd (login failingPlatform
               (snd (signup failingPlatform initialState (name ann) (email ann) (password ann)))
               (email ann) (password ann))) = Some ann"
proof -
  have fresh: "email ann \<notin> email ` set (users initialState)"
    by (simp add: initialState_def)
  have rec: "ann = \<lparr>name = name ann, email = email ann, password = password ann\<rparr>"
    by simp
  show ?thesis
    using signup_login_round_trip
            [OF ann_valid fresh rec,
             where pa = okPlatform and pb = okPlatform and s = initialState]
      signup_login_round_trip
            [OF ann_valid fresh rec,
             where pa = failingPlatform and pb = failingPlatform and s = initialState]
      fresh
    by (simp add: ann_valid okPlatform_writes signupFrom_same)
qed

text \<open>
  C1 as it was stated fails in two ways. A \<open>login\<close> called through the context value that
  the \<open>signup\<close> was called through still reads the registry of that render, which lacks
  the new user, and throws InvalidCredentials. And a \<open>signup\<close> whose registry write
  rejects throws its persistence error.
\<close>

theorem signup_login_same_context_counterexample:
  "fst (signup okPlatform initialState (name ann) (email ann) (password ann)) = Inr ()
   \<and> fst (loginFrom okPlatform initialState
            (snd (signup okPlatform initialState (name ann) (email ann) (password ann)))
            (email ann) (password ann)) = Inl InvalidCredentials
   \<and> user (snd (loginFrom okPlatform initialState
            (snd (signup okPlatform initialState (name ann) (email ann) (password ann)))
            (email ann) (password ann))) = None
   \<and> fst (signup failingPlatform initialState (name ann) (email ann) (password ann))
       = Inl FailedToSaveUserData"
proof -
  have "find (\<lambda>u. email u = email ann) (users initialState) = None"
    by (simp add: initialState_def)
  then have "loginFrom okPlatform initialState (initialState\<lparr>users := [ann]\<rparr>)
               (email ann) (password ann)
             = (Inl InvalidCredentials, initialState\<lparr>users := [ann]\<rparr>)"
    by (simp add: loginFrom_cases ann_valid)
  moreover have "user (initialState\<lparr>users := [ann]\<rparr>) = None"
    by (simp add: initialState_def)
  moreover have "fst (signup failingPlatform initialState (name ann) (email ann) (password ann))
       = Inl FailedToSaveUserData"
    by (simp add: signup_cases ann_valid failingPlatform_writes) (simp add: initialState_def)
  ultimately show ?thesis
    by (simp add: signup_ann)
qed

text \<open>
  C2 (registry uniqueness), as the code has it. From renders whose registries have
  pairwise distinct emails, every run of \<open>signup\<close>, \<open>login\<close> and \<open>logout\<close> calls, each made
  through the context value of any render so far and under any behaviour of the storage,
  ends in a registry whose emails are pairwise distinct (equality of code unit
  sequences). From the empty registry, a run of N signups that are each made through the
  context value of the current render and all return normally ends with exactly N
  entries. A signup with an email that is in the registry of the context value it is
  called through does not return normally and leaves the state as it was.
\<close>

theorem registry_emails_distinct:
  "(distinct (map email (users s)) \<and> (\<forall>r \<in> set olds. distinct (map email (users r)))
      \<longrightarrow> distinct (map email (users (snd (run s olds cs)))))
   \<and> (users s = [] \<and> list_all isFreshSignup cs
        \<and> list_all (\<lambda>res. res = Inr ()) (fst (run s olds cs))
      \<longrightarrow> length (users (snd (run s olds cs))) = length cs)
   \<and> (em \<in> email ` set (users r)
      \<longrightarrow> fst (signupFrom p r s nm em pw) \<noteq> Inr () \<and> snd (signupFrom p r s nm em pw) = s)"
proof (intro conjI impI)
  assume "distinct (map email (users s)) \<and> (\<forall>r \<in> set olds. distinct (map email (users r)))"
  then show "distinct (map email (users (snd (run s olds cs))))"
    using run_distinct [of s olds cs] by blast
next
  assume "users s = [] \<and> list_all isFreshSignup cs
        \<and> list_all (\<lambda>res. res = Inr ()) (fst (run s olds cs))"
  then show "length (users (snd (run s olds cs))) = length cs"
    using run_fresh_signups_length [of cs s olds] by simp
next
  assume "em \<in> email ` set (users r)"
  then show "fst (signupFrom p r s nm em pw) \<noteq> Inr ()"
    by (simp add: signupFrom_cases)
next
  assume "em \<in> email ` set (users r)"
  then show "snd (signupFrom p r s nm em pw) = s"
    by (simp add: signupFrom_cases)
qed

theorem registry_emails_distinct_witness:
  "users initialState = []
   \<and> fst (run initialState []
        [(okPlatform, 0, Signup (name ann) (email ann) (password ann)),
         (okPlatform, 0, Signup (name bob) (email bob) (password bob))]) = [Inr (), Inr ()]
   \<and> length (users (snd (run initialState []
        [(okPlatform, 0, Signup (name ann) (email ann) (password ann)),
         (okPlatform, 0, Signup (name bob) (email bob) (password bob))]))) = 2
   \<and> distinct (map email (users (snd (run initialState []
        [(okPlatform, 0, Signup (name ann) (email ann) (password ann)),
         (okPlatform, 1, Signup (name bob) (email bob) (password bob))]))))
   \<and> email bob \<in> email ` set (users (initialState\<lparr>users := [ann, bob]\<rparr>))
   \<and> fst (signup failingPlatform (initialState\<lparr>users := [ann, bob]\<rparr>)
            (name ann) (email bob) (password ann)) \<noteq> Inr ()
   \<and> snd (signup failingPlatform (initialState\<lparr>users := [ann, bob]\<rparr>)
            (name ann) (email bob) (password ann)) = initialState\<lparr>users := [ann, bob]\<rparr>"
proof -
  let ?cs = "[(okPlatform, 0, Signup (name ann) (email ann) (password ann)),
              (okPlatform, 0, Signup (name bob) (email bob) (password bob))]"
  let ?stale = "[(okPlatform, 0, Signup (name ann) (email ann) (password ann)),
                 (okPlatform, 1, Signup (name bob) (email bob) (password bob))]"
  let ?s2 = "initialState\<lparr>users := [ann, bob]\<rparr>"
  have empty: "users initialState = []"
    by (simp add: initialState_def)
  have present: "email bob \<in> email ` set (users ?s2)"
    by simp
  have "length (users (snd (run initialState [] ?cs))) = length ?cs"
    using registry_emails_distinct [where s = initialState and olds = "[]" and cs = ?cs] empty
    by (simp add: run_ann_bob del: run.simps)
  moreover have "distinct (map email (users (snd (run initialState [] ?stale))))"
    using registry_emails_distinct [where s = initialState and olds = "[]" and cs = ?stale]
      empty
    by simp
  moreover have "fst (signupFrom failingPlatform ?s2 ?s2 (name ann) (email bob) (password ann))
                   \<noteq> Inr ()
        \<and> snd (signupFrom failingPlatform ?s2 ?s2 (name ann) (email bob) (password ann)) = ?s2"
    using registry_emails_distinct
            [where em = "email bob" and r = ?s2 and s = ?s2 and p = failingPlatform
               and nm = "name ann" and pw = "password ann" and olds = "[]" and cs = "[]"]
      present by blast
  ultimately show ?thesis
    using empty present by (simp add: run_ann_bob signupFrom_same del: run.simps)
qed

text \<open>
  C2 as it was stated fails in its count: two signups with distinct emails that are both
  called through the context value of the first render both return normally, and the
  second stores the registry of that render with only its own user appended, so one entry
  is left.
\<close>

theorem two_signups_same_context_counterexample:
  "email ann \<noteq> email bob
   \<and> fst (run initialState []
        [(okPlatform, 0, Signup (name ann) (email ann) (password ann)),
         (okPlatform, 1, Signup (name bob) (email bob) (password bob))]) = [Inr (), Inr ()]
   \<and> users (snd (run initialState []
        [(okPlatform, 0, Signup (name ann) (email ann) (password ann)),
         (okPlatform, 1, Signup (name bob) (email bob) (password bob))])) = [bob]
   \<and> length (users (snd (run initialState []
        [(okPlatform, 0, Signup (name ann) (email ann) (password ann)),
         (okPlatform, 1, Signup (name bob) (email bob) (password bob))]))) = 1"
  unfolding run_ann_bob_stale using ann_bob_email by simp

text \<open>
  C3 (signup error order). For every input and state, \<open>signup\<close> fails with the error of
  the first check that does not pass, in the order NameRequired, EmailRequired,
  PasswordRequired, InvalidEmailFormat, PasswordTooShort, EmailAlreadyRegistered, and
  leaves the state untouched; when all six pass it appends the user and its outcome is
  that of the registry write.
\<close>

theorem signup_error_order:
  "signup p s nm em pw =
     (case first_failure (signup_checks s nm em pw) of
        Some e \<Rightarrow> (Inl e, s)
      | None \<Rightarrow>
          (case saveUsers p (users s @ [\<lparr>name = nm, email = em, password = pw\<rparr>]) of
             Inl x \<Rightarrow> Inl FailedToSaveUserData
           | Inr _ \<Rightarrow> Inr (),
           s\<lparr>users := users s @ [\<lparr>name = nm, email = em, password = pw\<rparr>]\<rparr>))"
  by (simp add: first_failure_signup_checks signup_cases)

theorem signup_error_order_witness:
  "first_failure (signup_checks (initialState\<lparr>users := [ann]\<rparr>) [] (email ann) [])
     = Some NameRequired
   \<and> signup okPlatform (initialState\<lparr>users := [ann]\<rparr>) [] (email ann) []
     = (Inl NameRequired, initialState\<lparr>users := [ann]\<rparr>)
   \<and> first_failure (signup_checks (initialState\<lparr>users := [ann]\<rparr>) (name bob) (email ann) [])
     = Some PasswordRequired
   \<and> signup okPlatform (initialState\<lparr>users := [ann]\<rparr>) (name bob) (email ann) []
     = (Inl PasswordRequired, initialState\<lparr>users := [ann]\<rparr>)
   \<and> first_failure (signup_checks (initialState\<lparr>users := [ann]\<rparr>)
        (name bob) (email ann) (password bob))
     = Some EmailAlreadyRegistered
   \<and> signup okPlatform (initialState\<lparr>users := [ann]\<rparr>) (name bob) (email ann) (password bob)
     = (Inl EmailAlreadyRegistered, initialState\<lparr>users := [ann]\<rparr>)"
proof -
  let ?s = "initialState\<lparr>users := [ann]\<rparr>"
  have blank: "\<not> validateRequired []"
    by (simp add: validateRequired_def)
  have f1: "first_failure (signup_checks ?s [] (email ann) []) = Some NameRequired"
    by (simp add: first_failure_def signup_checks_def blank)
  have f2: "first_failure (signup_checks ?s (name bob) (email ann) []) = Some PasswordRequired"
    by (simp add: first_failure_def signup_checks_def blank bob_valid ann_valid)
  have f3: "first_failure (signup_checks ?s (name bob) (email ann) (password bob))
              = Some EmailAlreadyRegistered"
    by (simp add: first_failure_def signup_checks_def bob_valid ann_valid)
  show ?thesis
    using signup_error_order [of okPlatform ?s "[]" "email ann" "[]"]
      signup_error_order [of okPlatform ?s "name bob" "email ann" "[]"]
      signup_error_order [of okPlatform ?s "name bob" "email ann" "password bob"]
    by (simp add: f1 f2 f3)
qed

text \<open>
  C4 (email validator at the boundary), as the code has it. \<open>validateEmail\<close> is false
  for a string without \<open>@\<close>, for a string whose first character is \<open>@\<close>, and for a
  string whose last character is \<open>@\<close> when no \<open>@\<close> occurs before it: the test is made
  on the first \<open>@\<close> only.
\<close>

theorem validateEmail_at_boundary:
  "(at_sign \<notin> set s \<longrightarrow> \<not> validateEmail s)
   \<and> (s \<noteq> [] \<and> hd s = at_sign \<longrightarrow> \<not> validateEmail s)
   \<and> (s \<noteq> [] \<and> last s = at_sign \<and> at_sign \<notin> set (butlast s) \<longrightarrow> \<not> validateEmail s)"
proof (intro conjI impI)
  assume "at_sign \<notin> set s"
  then have "indexOf s at_sign = -1" by (simp add: indexOf_neg_iff)
  then show "\<not> validateEmail s" by (simp add: validateEmail_def)
next
  assume "s \<noteq> [] \<and> hd s = at_sign"
  then have "indexOf s at_sign = 0" by (simp add: indexOf_zero_iff)
  then show "\<not> validateEmail s" by (simp add: validateEmail_def)
next
  assume h: "s \<noteq> [] \<and> last s = at_sign \<and> at_sign \<notin> set (butlast s)"
  then have "s = butlast s @ [at_sign]"
    using append_butlast_last_id [of s] by simp
  then have "indexOf s at_sign = int (length (butlast s))"
    using h indexOf_snoc [of at_sign "butlast s"] by simp
  also have "\<dots> = int (length s) - 1"
    using h by (simp add: of_nat_diff Suc_leI)
  finally show "\<not> validateEmail s" by (simp add: validateEmail_def)
qed

theorem validateEmail_at_boundary_witness:
  "at_sign \<notin> set (utf16 ''ann.x.com'') \<and> \<not> validateEmail (utf16 ''ann.x.com'')
   \<and> hd (utf16 ''@x.com'') = at_sign \<and> \<not> validateEmail (utf16 ''@x.com'')
   \<and> last (utf16 ''ann@'') = at_sign \<and> at_sign \<notin> set (butlast (utf16 ''ann@''))
   \<and> \<not> validateEmail (utf16 ''ann@'')"
proof -
  have a: "at_sign \<notin> set (utf16 ''ann.x.com'')"
    by (simp add: at_sign_def utf16_def)
  have b: "utf16 ''@x.com'' \<noteq> [] \<and> hd (utf16 ''@x.com'') = at_sign"
    by (simp add: at_sign_def utf16_def)
  have c: "utf16 ''ann@'' \<noteq> [] \<and> last (utf16 ''ann@'') = at_sign
           \<and> at_sign \<notin> set (butlast (utf16 ''ann@''))"
    by (simp add: at_sign_def utf16_def)
  show ?thesis
    using validateEmail_at_boundary [of "utf16 ''ann.x.com''"]
      validateEmail_at_boundary [of "utf16 ''@x.com''"]
      validateEmail_at_boundary [of "utf16 ''ann@''"] a b c
    by blast
qed

text \<open>
  C4 as it was stated fails: \<open>a@b@\<close> ends in \<open>@\<close> and is accepted, since its first
  \<open>@\<close> has a character on each side.
\<close>

theorem validateEmail_last_at_counterexample:
  "last (utf16 ''a@b@'') = at_sign \<and> validateEmail (utf16 ''a@b@'')"
  by (simp add: validateEmail_def at_sign_def utf16_def)

text \<open>
  C5 (rejection of a duplicate), as the code has it. A signup with an email that is in
  the registry of the context value it is called through always fails and leaves the
  state untouched. Its error is that of the first check that fails, in the order
  NameRequired, EmailRequired, PasswordRequired, InvalidEmailFormat, PasswordTooShort;
  it is EmailAlreadyRegistered exactly when name, email and password pass these five.
\<close>

theorem signup_duplicate_rejected:
  assumes "em \<in> email ` set (users r)"
  shows "signupFrom p r s nm em pw =
           (Inl (if \<not> validateRequired nm then NameRequired
                 else if \<not> validateRequired em then EmailRequired
                 else if \<not> validateRequired pw then PasswordRequired
                 else if \<not> validateEmail em then InvalidEmailFormat
                 else if \<not> validatePassword pw then PasswordTooShort
                 else EmailAlreadyRegistered),
            s)"
  using assms by (simp add: signupFrom_cases)

theorem signup_duplicate_rejected_witness:
  "email ann \<in> email ` set (users (initialState\<lparr>users := [ann]\<rparr>))
   \<and> signup okPlatform (initialState\<lparr>users := [ann]\<rparr>) (name bob) (email ann) (password bob)
       = (Inl EmailAlreadyRegistered, initialState\<lparr>users := [ann]\<rparr>)
   \<and> signup okPlatform (initialState\<lparr>users := [ann]\<rparr>) [] (email ann) (password bob)
       = (Inl NameRequired, initialState\<lparr>users := [ann]\<rparr>)
   \<and> signup okPlatform (initialState\<lparr>users := [ann]\<rparr>) (name bob) (email ann) []
       = (Inl PasswordRequired, initialState\<lparr>users := [ann]\<rparr>)
   \<and> signup okPlatform (initialState\<lparr>users := [ann]\<rparr>) (name bob) (email ann) (utf16 ''abc'')
       = (Inl PasswordTooShort, initialState\<lparr>users := [ann]\<rparr>)
   \<and> signupFrom okPlatform (initialState\<lparr>users := [ann]\<rparr>) initialState
         (name bob) (email ann) (password bob)
       = (Inl EmailAlreadyRegistered, initialState)"
proof -
  let ?s = "initialState\<lparr>users := [ann]\<rparr>"
  have present: "email ann \<in> email ` set (users ?s)"
    by simp
  have short: "validateRequired (utf16 ''abc'')" "\<not> validatePassword (utf16 ''abc'')"
    by (simp_all add: validateRequired_def validatePassword_def trim_def isWhiteSpace_def
          utf16_def)
  show ?thesis
    using signup_duplicate_rejected [OF present, of okPlatform ?s "name bob" "password bob"]
      signup_duplicate_rejected [OF present, of okPlatform ?s "[]" "password bob"]
      signup_duplicate_rejected [OF present, of okPlatform ?s "name bob" "[]"]
      signup_duplicate_rejected [OF present, of okPlatform ?s "name bob" "utf16 ''abc''"]
      signup_duplicate_rejected [OF present, of okPlatform initialState "name bob" "password bob"]
      present
    by (simp add: ann_valid bob_valid blank_required short signupFrom_same)
qed

text \<open>
  C5 as it was stated fails: after Ann has signed up, a second signup with her email and
  a blank name fails with NameRequired, the first check in the order of C3.
\<close>

theorem signup_duplicate_blank_name_counterexample:
  "fst (signup okPlatform initialState (name ann) (email ann) (password ann)) = Inr ()
   \<and> email ann \<in> email ` set (users (snd (signup okPlatform initialState
                                            (name ann) (email ann) (password ann))))
   \<and> fst (signup okPlatform
            (snd (signup okPlatform initialState (name ann) (email ann) (password ann)))
            [] (email ann) (password ann)) = Inl NameRequired
   \<and> fst (signup okPlatform
            (snd (signup okPlatform initialState (name ann) (email ann) (password ann)))
            [] (email ann) (password ann)) \<noteq> Inl EmailAlreadyRegistered"
  by (simp add: signup_ann) (simp add: signup_cases blank_required)

text \<open>
  C6 (non-enumeration), as the code has it. For an email and a password that pass the
  three input checks of \<open>login\<close>, a login with an unregistered email and a login with a
  registered email and a password that no entry of that email has both fail with
  InvalidCredentials and leave the state untouched. For every email and password, passing
  the checks or not, the error of \<open>login\<close> is the same in a registry without the email
  and in one that has it under another password.
\<close>

theorem login_non_enumeration:
  "(validateRequired em \<and> validateRequired pw \<and> validateEmail em
      \<and> em \<notin> email ` set (users s)
    \<longrightarrow> login p s em pw = (Inl InvalidCredentials, s))
   \<and> (validateRequired em \<and> validateRequired pw \<and> validateEmail em
      \<and> em \<in> email ` set (users s)
      \<and> (\<forall>u \<in> set (users s). email u = em \<longrightarrow> password u \<noteq> pw)
    \<longrightarrow> login p s em pw = (Inl InvalidCredentials, s))
   \<and> (em \<notin> email ` set (users s1)
      \<and> em \<in> email ` set (users s2)
      \<and> (\<forall>u \<in> set (users s2). email u = em \<longrightarrow> password u \<noteq> pw)
    \<longrightarrow> fst (login p1 s1 em pw) = fst (login p2 s2 em pw))"
proof (intro conjI impI)
  assume h: "validateRequired em \<and> validateRequired pw \<and> validateEmail em
      \<and> em \<notin> email ` set (users s)"
  then have "find (\<lambda>u. email u = em) (users s) = None"
    by (simp add: find_email_None)
  with h show "login p s em pw = (Inl InvalidCredentials, s)"
    by (simp add: login_cases)
next
  assume h: "validateRequired em \<and> validateRequired pw \<and> validateEmail em
      \<and> em \<in> email ` set (users s)
      \<and> (\<forall>u \<in> set (users s). email u = em \<longrightarrow> password u \<noteq> pw)"
  show "login p s em pw = (Inl InvalidCredentials, s)"
  proof (cases "find (\<lambda>u. email u = em) (users s)")
    case None
    with h show ?thesis by (simp add: login_cases)
  next
    case (Some f)
    then have "f \<in> set (users s) \<and> email f = em" by (rule find_email_Some)
    with h have "password f \<noteq> pw" by blast
    with h Some show ?thesis by (simp add: login_cases)
  qed
next
  assume h: "em \<notin> email ` set (users s1) \<and> em \<in> email ` set (users s2)
      \<and> (\<forall>u \<in> set (users s2). email u = em \<longrightarrow> password u \<noteq> pw)"
  then have n1: "find (\<lambda>u. email u = em) (users s1) = None"
    by (simp add: find_email_None)
  have "fst (login p2 s2 em pw) =
          (if \<not> validateRequired em then Inl EmailRequired
           else if \<not> validateRequired pw then Inl PasswordRequired
           else if \<not> validateEmail em then Inl InvalidEmailFormat
           else Inl InvalidCredentials)"
  proof (cases "find (\<lambda>u. email u = em) (users s2)")
    case None
    then show ?thesis by (simp add: login_cases)
  next
    case (Some f)
    then have "f \<in> set (users s2) \<and> email f = em" by (rule find_email_Some)
    with h have "password f \<noteq> pw" by blast
    with Some show ?thesis by (simp add: login_cases)
  qed
  then show "fst (login p1 s1 em pw) = fst (login p2 s2 em pw)"
    using n1 by (simp add: login_cases)
qed

theorem login_non_enumeration_witness:
  "validateRequired (email bob) \<and> validateRequired (password bob) \<and> validateEmail (email bob)
   \<and> email bob \<notin> email ` set (users (initialState\<lparr>users := [ann]\<rparr>))
   \<and> login okPlatform (initialState\<lparr>users := [ann]\<rparr>) (email bob) (password bob)
       = (Inl InvalidCredentials, initialState\<lparr>users := [ann]\<rparr>)
   \<and> validateRequired (email ann)  \<and> validateEmail (email ann)
   \<and> email ann \<in> email ` set (users (initialState\<lparr>users := [ann]\<rparr>))
   \<and> password ann \<noteq> password bob
   \<and> login okPlatform (initialState\<lparr>users := [ann]\<rparr>) (email ann) (password bob)
       = (Inl InvalidCredentials, initialState\<lparr>users := [ann]\<rparr>)
   \<and> email ann \<notin> email ` set (users initialState)
   \<and> fst (login okPlatform initialState (email ann) (password bob))
       = fst (login failingPlatform (initialState\<lparr>users := [ann]\<rparr>) (email ann) (password bob))"
proof -
  let ?s = "initialState\<lparr>users := [ann]\<rparr>"
  have pw: "password ann \<noteq> password bob"
    by (simp add: ann_def bob_def utf16_def)
  have a: "email bob \<notin> email ` set (users ?s)"
    using ann_bob_email by simp
  have b: "email ann \<in> email ` set (users ?s)"
    by simp
  have c: "\<forall>u \<in> set (users ?s). email u = email ann \<longrightarrow> password u \<noteq> password bob"
    using pw by simp
  have d: "email ann \<notin> email ` set (users initialState)"
    by (simp add: initialState_def)
  have "login okPlatform ?s (email bob) (password bob) = (Inl InvalidCredentials, ?s)"
    using login_non_enumeration [of "email bob" "password bob" ?s okPlatform] a
    by (simp add: bob_valid)
  moreover have "login okPlatform ?s (email ann) (password bob) = (Inl InvalidCredentials, ?s)"
    using login_non_enumeration [of "email ann" "password bob" ?s okPlatform] b c
    by (simp add: bob_valid ann_valid)
  moreover have "fst (login okPlatform initialState (email ann) (password bob))
       = fst (login failingPlatform ?s (email ann) (password bob))"
    using login_non_enumeration
            [of "email ann" "password bob" ?s okPlatform initialState ?s okPlatform failingPlatform]
      b c d by blast
  ultimately show ?thesis
    using a b d pw by (simp add: bob_valid ann_valid)
qed

text \<open>
  C6 as it was stated fails: a login with an unregistered email and a blank password
  fails with PasswordRequired, which is checked before the lookup.
\<close>

theorem login_blank_password_counterexample:
  "email ann \<notin> email ` set (users initialState)
   \<and> fst (login okPlatform initialState (email ann) []) = Inl PasswordRequired
   \<and> fst (login okPlatform initialState (email ann) []) \<noteq> Inl InvalidCredentials"
  by (simp add: login_cases ann_valid blank_required) (simp add: initialState_def)

text \<open>
  C7 (signup never authenticates). For every input, state and storage behaviour,
  \<open>signup\<close> leaves \<open>currentUser\<close> as it was, whether it returns or throws; \<open>logout\<close>
  clears it; and a call after which a session is present that differs from the one
  before is a \<open>login\<close>.
\<close>

theorem signup_keeps_session:
  "user (snd (signup p s nm em pw)) = user s
   \<and> user (snd (logout p s)) = None
   \<and> (user (snd (step p s c)) \<noteq> user s \<and> user (snd (step p s c)) \<noteq> None
      \<longrightarrow> (\<exists>em' pw'. c = Login em' pw'))"
proof (intro conjI impI)
  show "user (snd (signup p s nm em pw)) = user s" by (rule signup_user)
  show "user (snd (logout p s)) = None" by (simp add: logout_cases)
next
  assume "user (snd (step p s c)) \<noteq> user s \<and> user (snd (step p s c)) \<noteq> None"
  then show "\<exists>em' pw'. c = Login em' pw'"
    by (cases c) (simp_all add: signup_user logout_cases)
qed

theorem signup_keeps_session_witness:
  "user (snd (signup okPlatform (initialState\<lparr>user := Some bob\<rparr>)
                (name ann) (email ann) (password ann))) = Some bob
   \<and> fst (signup okPlatform (initialState\<lparr>user := Some bob\<rparr>)
                (name ann) (email ann) (password ann)) = Inr ()
   \<and> user (snd (signup failingPlatform initialState [] [] [])) = None
   \<and> user (snd (step okPlatform (initialState\<lparr>users := [ann]\<rparr>)
                  (Login (email ann) (password ann)))) = Some ann
   \<and> user (initialState\<lparr>users := [ann]\<rparr>) = None"
proof -
  have "user (snd (signup okPlatform (initialState\<lparr>user := Some bob\<rparr>)
                (name ann) (email ann) (password ann))) = Some bob"
    using signup_keeps_session [of okPlatform "initialState\<lparr>user := Some bob\<rparr>"
                                   "name ann" "email ann" "password ann"]
    by simp
  moreover have "user (snd (signup failingPlatform initialState [] [] [])) = None"
    using signup_keeps_session [of failingPlatform initialState "[]" "[]" "[]"]
    by (simp add: initialState_def)
  moreover have "fst (signup okPlatform (initialState\<lparr>user := Some bob\<rparr>)
                (name ann) (email ann) (password ann)) = Inr ()"
    by (simp add: signup_cases ann_valid okPlatform_writes) (simp add: initialState_def)
  moreover have "user (snd (step okPlatform (initialState\<lparr>users := [ann]\<rparr>)
                  (Login (email ann) (password ann)))) = Some ann"
    by (simp add: login_cases ann_valid okPlatform_writes)
  moreover have "user (initialState\<lparr>users := [ann]\<rparr>) = None"
    by (simp add: initialState_def)
  ultimately show ?thesis by simp
qed

text \<open>
  C8 (no rollback on a persistence failure). When all checks of \<open>signup\<close> pass and the
  registry write fails, \<open>signup\<close> throws its persistence error and the new user stays
  appended; when the credentials match and the session write fails, \<open>login\<close> throws
  its persistence error and \<open>currentUser\<close> stays set; when the removal fails,
  \<open>logout\<close> throws its persistence error and \<open>currentUser\<close> stays cleared.
\<close>

theorem no_rollback_on_persistence_failure:
  "(validateRequired nm \<and> validateRequired em \<and> validateRequired pw
      \<and> validateEmail em \<and> validatePassword pw \<and> em \<notin> email ` set (users s)
      \<and> saveUsers p (users s @ [\<lparr>name = nm, email = em, password = pw\<rparr>]) = Inl x
    \<longrightarrow> signup p s nm em pw
          = (Inl FailedToSaveUserData,
             s\<lparr>users := users s @ [\<lparr>name = nm, email = em, password = pw\<rparr>]\<rparr>))
   \<and> (validateRequired em \<and> validateRequired pw \<and> validateEmail em
      \<and> find (\<lambda>u. email u = em) (users s) = Some f \<and> password f = pw
      \<and> saveUser p f = Inl x
    \<longrightarrow> login p s em pw = (Inl FailedToSaveSession, s\<lparr>user := Some f\<rparr>))
   \<and> (removeUser p = Inl x
    \<longrightarrow> logout p s = (Inl FailedToClearSession, s\<lparr>user := None\<rparr>))
   \<and> {FailedToSaveUserData, FailedToSaveSession, FailedToClearSession} \<subseteq> PersistenceFailure"
proof (intro conjI impI)
  assume "validateRequired nm \<and> validateRequired em \<and> validateRequired pw
      \<and> validateEmail em \<and> validatePassword pw \<and> em \<notin> email ` set (users s)
      \<and> saveUsers p (users s @ [\<lparr>name = nm, email = em, password = pw\<rparr>]) = Inl x"
  then show "signup p s nm em pw
          = (Inl FailedToSaveUserData,
             s\<lparr>users := users s @ [\<lparr>name = nm, email = em, password = pw\<rparr>]\<rparr>)"
    by (simp add: signup_cases)
next
  assume "validateRequired em \<and> validateRequired pw \<and> validateEmail em
      \<and> find (\<lambda>u. email u = em) (users s) = Some f \<and> password f = pw
      \<and> saveUser p f = Inl x"
  then show "login p s em pw = (Inl FailedToSaveSession, s\<lparr>user := Some f\<rparr>)"
    by (simp add: login_cases)
next
  assume "removeUser p = Inl x"
  then show "logout p s = (Inl FailedToClearSession, s\<lparr>user := None\<rparr>)"
    by (simp add: logout_cases)
next
  show "{FailedToSaveUserData, FailedToSaveSession, FailedToClearSession} \<subseteq> PersistenceFailure"
    by (simp add: PersistenceFailure_def)
qed

theorem no_rollback_on_persistence_failure_witness:
  "signup failingPlatform initialState (name ann) (email ann) (password ann)
     = (Inl FailedToSaveUserData, initialState\<lparr>users := [ann]\<rparr>)
   \<and> login failingPlatform (initialState\<lparr>users := [ann]\<rparr>) (email ann) (password ann)
     = (Inl FailedToSaveSession, initialState\<lparr>users := [ann], user := Some ann\<rparr>)
   \<and> logout failingPlatform (initialState\<lparr>users := [ann], user := Some ann\<rparr>)
     = (Inl FailedToClearSession, initialState\<lparr>users := [ann], user := None\<rparr>)"
proof -
  let ?s1 = "initialState\<lparr>users := [ann]\<rparr>"
  let ?s2 = "initialState\<lparr>users := [ann], user := Some ann\<rparr>"
  have fresh: "email ann \<notin> email ` set (users initialState)"
    by (simp add: initialState_def)
  have rec: "\<lparr>name = name ann, email = email ann, password = password ann\<rparr> = ann"
    by simp
  have found: "find (\<lambda>u. email u = email ann) (users ?s1) = Some ann"
    by simp
  have "signup failingPlatform initialState (name ann) (email ann) (password ann)
          = (Inl FailedToSaveUserData, initialState\<lparr>users := users initialState @ [ann]\<rparr>)"
    using no_rollback_on_persistence_failure
            [of "name ann" "email ann" "password ann" initialState failingPlatform
                "JsError ''storage''"]
      fresh
    by (simp only: ann_valid failingPlatform_writes rec simp_thms)
  then have a: "signup failingPlatform initialState (name ann) (email ann) (password ann)
          = (Inl FailedToSaveUserData, ?s1)"
    by (simp add: initialState_def)
  have "login failingPlatform ?s1 (email ann) (password ann)
          = (Inl FailedToSaveSession, ?s1\<lparr>user := Some ann\<rparr>)"
    using no_rollback_on_persistence_failure
            [of "name ann" "email ann" "password ann" ?s1 failingPlatform
                "JsError ''storage''" ann]
      found
    by (simp only: ann_valid failingPlatform_writes simp_thms)
  then have b: "login failingPlatform ?s1 (email ann) (password ann)
          = (Inl FailedToSaveSession, ?s2)"
    by (simp add: initialState_def)
  have "logout failingPlatform ?s2 = (Inl FailedToClearSession, ?s2\<lparr>user := None\<rparr>)"
    using no_rollback_on_persistence_failure
            [of "name ann" "email ann" "password ann" ?s2 failingPlatform
                "JsError ''storage''" ann]
    by (simp only: failingPlatform_writes simp_thms)
  then have c: "logout failingPlatform ?s2
          = (Inl FailedToClearSession, initialState\<lparr>users := [ann], user := None\<rparr>)"
    by (simp add: initialState_def)
  show ?thesis
    using a b c by simp
qed

text \<open>
  C9 (graceful initialization). Whatever the two reads at start-up do, \<open>loadStoredAuth\<close>
  run on the initial state throws nothing and ends with the loading flag false; a
  session read that fails or finds nothing leaves \<open>currentUser\<close> absent, and a registry
  read that fails or finds nothing leaves the registry empty.
\<close>

theorem graceful_initialization:
  "fst (loadStoredAuth p initialState) = Inr ()
   \<and> isLoading (snd (loadStoredAuth p initialState)) = False
   \<and> (sessionUnreadable p \<longrightarrow> user (snd (loadStoredAuth p initialState)) = None)
   \<and> (registryUnreadable p \<longrightarrow> users (snd (loadStoredAuth p initialState)) = [])"
proof -
  obtain v where v: "getUser p = Inr v" using getUser_total by blast
  obtain us where us: "getUsers p = Inr us" using getUsers_total by blast
  note l = loadStoredAuth_cases [OF v us, of initialState]
  have "sessionUnreadable p \<Longrightarrow> v = None"
    using getUser_unreadable [of p] v by simp
  moreover have "registryUnreadable p \<Longrightarrow> us = []"
    using getUsers_unreadable [of p] us by simp
  moreover have "user initialState = None"
    by (simp add: initialState_def)
  ultimately show ?thesis
    by (auto simp: l)
qed

theorem graceful_initialization_witness:
  "sessionUnreadable failingPlatform \<and> registryUnreadable failingPlatform
   \<and> loadStoredAuth failingPlatform initialState
       = (Inr (), \<lparr>user = None, users = [], isLoading = False\<rparr>)
   \<and> sessionUnreadable okPlatform \<and> registryUnreadable okPlatform
   \<and> loadStoredAuth okPlatform initialState
       = (Inr (), \<lparr>user = None, users = [], isLoading = False\<rparr>)"
proof -
  have f: "sessionUnreadable failingPlatform \<and> registryUnreadable failingPlatform"
    by (simp add: sessionUnreadable_def registryUnreadable_def failingPlatform_def)
  have k: "sessionUnreadable okPlatform \<and> registryUnreadable okPlatform"
    by (simp add: sessionUnreadable_def registryUnreadable_def okPlatform_def)
  have "loadStoredAuth failingPlatform initialState
       = (Inr (), \<lparr>user = None, users = [], isLoading = False\<rparr>)"
    using graceful_initialization [of failingPlatform] f
    by (cases "loadStoredAuth failingPlatform initialState",
        cases "snd (loadStoredAuth failingPlatform initialState)") auto
  moreover have "loadStoredAuth okPlatform initialState
       = (Inr (), \<lparr>user = None, users = [], isLoading = False\<rparr>)"
    using graceful_initialization [of okPlatform] k
    by (cases "loadStoredAuth okPlatform initialState",
        cases "snd (loadStoredAuth okPlatform initialState)") auto
  ultimately show ?thesis using f k by simp
qed

text \<open>
  C10 (atomicity of validation failures). Whenever \<open>signup\<close> fails with one of the six
  validation errors, or \<open>login\<close> fails with one of them or with InvalidCredentials, the
  state after the call is the state before it.
\<close>

theorem validation_failures_atomic:
  "(fst (signup p s nm em pw) \<in> Inl ` ValidationError \<longrightarrow> snd (signup p s nm em pw) = s)
   \<and> (fst (login p s em pw) \<in> Inl ` (ValidationError \<union> {InvalidCredentials})
      \<longrightarrow> snd (login p s em pw) = s)"
  by (auto simp: signup_cases login_cases ValidationError_def
           split: if_splits option.splits sum.splits)

theorem validation_failures_atomic_witness:
  "fst (signup failingPlatform (initialState\<lparr>users := [ann]\<rparr>) (name bob) (email ann) (password bob))
     \<in> Inl ` ValidationError
   \<and> snd (signup failingPlatform (initialState\<lparr>users := [ann]\<rparr>) (name bob) (email ann) (password bob))
     = initialState\<lparr>users := [ann]\<rparr>
   \<and> fst (login failingPlatform (initialState\<lparr>users := [ann]\<rparr>) (email ann) (password bob))
     \<in> Inl ` (ValidationError \<union> {InvalidCredentials})
   \<and> snd (login failingPlatform (initialState\<lparr>users := [ann]\<rparr>) (email ann) (password bob))
     = initialState\<lparr>users := [ann]\<rparr>"
proof -
  let ?s = "initialState\<lparr>users := [ann]\<rparr>"
  have pw: "password ann \<noteq> password bob"
    by (simp add: ann_def bob_def utf16_def)
  have a: "fst (signup failingPlatform ?s (name bob) (email ann) (password bob))
             \<in> Inl ` ValidationError"
    by (simp add: signup_cases ann_valid bob_valid ValidationError_def)
  have b: "fst (login failingPlatform ?s (email ann) (password bob))
             \<in> Inl ` (ValidationError \<union> {InvalidCredentials})"
    using pw by (simp add: login_cases ann_valid bob_valid)
  show ?thesis
    using validation_failures_atomic
            [of failingPlatform ?s "name bob" "email ann" "password bob"] a b
    by blast
qed

end
